theory Spec2Isabelle
  imports Main "HOL-Library.Word"
begin

section \<open>The CRUMBS message and the controller sketch\<close>

text \<open>
  The source is \<^verbatim>\<open>CRUMBSMessage.h\<close>: the message structure, the constant
  \<^verbatim>\<open>CRUMBS_MESSAGE_SIZE\<close>, and the controller sketch with
  \<^verbatim>\<open>handleSerialInput\<close> and \<^verbatim>\<open>parseSerialInput\<close>.

  A \<^verbatim>\<open>uint8_t\<close> is an 8-bit word. A \<^verbatim>\<open>float\<close> is kept as its 32-bit IEEE-754
  pattern: the code only stores, copies and compares these values, and the literal
  \<^verbatim>\<open>0.0f\<close> is the all-zero pattern. The array \<^verbatim>\<open>float data[6]\<close> is a list,
  written by index with \<open>xs[i := v]\<close>; a message of the program has six slots
  (\<open>wf_message\<close>).
\<close>

type_synonym uint8_t = "8 word"
type_synonym float32 = "32 word"

record CRUMBSMessage =
  sliceID :: uint8_t
  typeID :: uint8_t
  commandType :: uint8_t
  data :: "float32 list"
  errorFlags :: uint8_t

definition CRUMBS_MESSAGE_SIZE :: nat where
  "CRUMBS_MESSAGE_SIZE = 28"

definition wf_message :: "CRUMBSMessage \<Rightarrow> bool" where
  "wf_message m = (length (data m) = 6)"

subsection \<open>The host's string functions\<close>

text \<open>
  The sketch calls the Arduino \<^verbatim>\<open>String\<close> class and the C library. They are not part
  of the repository; the definitions below follow their documented behaviour. A
  \<^verbatim>\<open>String\<close> is the list of its characters, the terminating NUL left out.
\<close>

definition isspace :: "char \<Rightarrow> bool" where
  "isspace c = (c = CHR '' '' \<or> c = CHR 0x09 \<or> c = CHR 0x0A \<or> c = CHR 0x0B
      \<or> c = CHR 0x0C \<or> c = CHR 0x0D)"

definition isdigit :: "char \<Rightarrow> bool" where
  "isdigit c = (48 \<le> (of_char c :: nat) \<and> (of_char c :: nat) \<le> 57)"

definition digit_value :: "char \<Rightarrow> nat" where
  "digit_value c = of_char c - 48"

text \<open>\<^verbatim>\<open>String::trim\<close>: white space is removed at both ends.\<close>

definition trim :: "string \<Rightarrow> string" where
  "trim s = rev (dropWhile isspace (rev (dropWhile isspace s)))"

text \<open>\<^verbatim>\<open>String::startsWith\<close>: false when the prefix is longer than the string.\<close>

definition startsWith :: "string \<Rightarrow> string \<Rightarrow> bool" where
  "startsWith s p = (if length s < length p then False else take (length p) s = p)"

text \<open>
  \<^verbatim>\<open>String::substring(left, right)\<close>: the bounds are swapped when out of order, a
  start at or after the end gives the empty string, and the end is clamped.
\<close>

definition substring :: "string \<Rightarrow> nat \<Rightarrow> nat \<Rightarrow> string" where
  "substring s left right =
     (let l = (if left > right then right else left);
          r = (if left > right then left else right)
      in if l \<ge> length s then []
         else let r' = (if r > length s then length s else r)
              in take (r' - l) (drop l s))"

text \<open>
  \<^verbatim>\<open>String::toInt\<close> is \<^verbatim>\<open>atol\<close> on the buffer: leading white space, an optional
  sign, then decimal digits up to the first other character; no digit gives 0. The
  result is a \<^verbatim>\<open>long\<close> of 32 bits. The library does not say what a value out of
  the range of \<^verbatim>\<open>long\<close> gives (avr-libc does not check for overflow); here the
  accumulation wraps, as its 32-bit arithmetic does.
\<close>

fun atol_digits :: "string \<Rightarrow> 32 word \<Rightarrow> 32 word" where
  "atol_digits [] acc = acc"
| "atol_digits (c # cs) acc =
     (if isdigit c then atol_digits cs (acc * 10 + of_nat (digit_value c)) else acc)"

definition atol :: "string \<Rightarrow> 32 word" where
  "atol s =
     (case dropWhile isspace s of
        [] \<Rightarrow> 0
      | c # cs \<Rightarrow>
          if c = CHR ''-'' then - atol_digits cs 0
          else if c = CHR ''+'' then atol_digits cs 0
          else atol_digits (c # cs) 0)"

definition toInt :: "string \<Rightarrow> 32 word" where
  "toInt s = atol s"

text \<open>
  \<^verbatim>\<open>strtol(s, NULL, base)\<close>, for a base from 2 to 36: leading white space, an
  optional sign, for base 16 an optional \<^verbatim>\<open>0x\<close> or \<^verbatim>\<open>0X\<close>, then the digits
  of the base up to the first other character. The result is a \<^verbatim>\<open>long\<close> of 32 bits;
  a value out of its range is \<^verbatim>\<open>LONG_MAX\<close> (2147483647) or \<^verbatim>\<open>LONG_MIN\<close>
  (-2147483648).
\<close>

definition strtol_digit :: "char \<Rightarrow> int option" where
  "strtol_digit c =
     (let n = (of_char c :: int)
      in if 48 \<le> n \<and> n \<le> 57 then Some (n - 48)
         else if 65 \<le> n \<and> n \<le> 90 then Some (n - 55)
         else if 97 \<le> n \<and> n \<le> 122 then Some (n - 87)
         else None)"

fun strtol_digits :: "int \<Rightarrow> string \<Rightarrow> int \<Rightarrow> int" where
  "strtol_digits base [] acc = acc"
| "strtol_digits base (c # cs) acc =
     (case strtol_digit c of
        None \<Rightarrow> acc
      | Some d \<Rightarrow> if d < base then strtol_digits base cs (acc * base + d) else acc)"

definition strtol :: "string \<Rightarrow> int \<Rightarrow> 32 word" where
  "strtol s base =
     (let s1 = dropWhile isspace s;
          neg = (case s1 of [] \<Rightarrow> False | c # cs \<Rightarrow> c = CHR ''-'');
          s2 = (case s1 of [] \<Rightarrow> []
                | c # cs \<Rightarrow> if c = CHR ''-'' \<or> c = CHR ''+'' then cs else s1);
          s3 = (if base = 16 \<and> (take 2 s2 = ''0x'' \<or> take 2 s2 = ''0X'') then drop 2 s2 else s2);
          n = strtol_digits base s3 0
      in if neg then (if n > 2147483648 then word_of_int (- 2147483648) else word_of_int (- n))
         else (if n > 2147483647 then word_of_int 2147483647 else word_of_int n))"

subsection \<open>parseSerialInput\<close>

text \<open>
  \<^verbatim>\<open>parseSerialInput(input, targetAddress, message)\<close> writes through two reference
  parameters and returns a flag. The model takes the values the two objects hold at the
  call and returns the flag with the values they hold at the return. The caller passes
  both uninitialised, so they are arbitrary at the call.

  \<^verbatim>\<open>String::toFloat\<close> is the host's conversion of text to a \<^verbatim>\<open>float\<close>; it is the
  parameter \<open>toFloat\<close>. The lines written to the console are left out.

  The counters \<^verbatim>\<open>i\<close>, \<^verbatim>\<open>fieldCount\<close> and \<^verbatim>\<open>lastComma\<close> are \<^verbatim>\<open>int\<close>; they
  stay below the length of the line plus two, so they are natural numbers here.
\<close>

text \<open>The \<^verbatim>\<open>switch (fieldCount)\<close> of the loop body.\<close>

definition store_field ::
  "(string \<Rightarrow> float32) \<Rightarrow> nat \<Rightarrow> string \<Rightarrow> uint8_t \<times> CRUMBSMessage
     \<Rightarrow> uint8_t \<times> CRUMBSMessage" where
  "store_field toFloat fieldCount val tm =
     (case tm of (targetAddress, message) \<Rightarrow>
        if fieldCount = 0 then (ucast (toInt val), message)
        else if fieldCount = 1 then (targetAddress, message\<lparr>typeID := ucast (toInt val)\<rparr>)
        else if fieldCount = 2 then (targetAddress, message\<lparr>commandType := ucast (toInt val)\<rparr>)
        else if fieldCount = 3 then (targetAddress, message\<lparr>data := (data message)[0 := toFloat val]\<rparr>)
        else if fieldCount = 4 then (targetAddress, message\<lparr>data := (data message)[1 := toFloat val]\<rparr>)
        else if fieldCount = 5 then (targetAddress, message\<lparr>data := (data message)[2 := toFloat val]\<rparr>)
        else if fieldCount = 6 then (targetAddress, message\<lparr>data := (data message)[3 := toFloat val]\<rparr>)
        else if fieldCount = 7 then (targetAddress, message\<lparr>data := (data message)[4 := toFloat val]\<rparr>)
        else if fieldCount = 8 then (targetAddress, message\<lparr>data := (data message)[5 := toFloat val]\<rparr>)
        else if fieldCount = 9 then (targetAddress, message\<lparr>errorFlags := ucast (toInt val)\<rparr>)
        else (targetAddress, message))"

text \<open>
  The loop \<^verbatim>\<open>for (int i = 0; i <= input.length(); i++)\<close>, from index \<open>i\<close> on, over
  the state (\<open>fieldCount\<close>, \<open>lastComma\<close>, \<open>targetAddress\<close>, \<open>message\<close>).
\<close>

function parse_loop ::
  "(string \<Rightarrow> float32) \<Rightarrow> string \<Rightarrow> nat \<Rightarrow> nat \<times> nat \<times> uint8_t \<times> CRUMBSMessage
     \<Rightarrow> nat \<times> nat \<times> uint8_t \<times> CRUMBSMessage" where
  "parse_loop toFloat input i (fieldCount, lastComma, tm) =
     (if i \<le> length input then
        (if i = length input \<or> input ! i = CHR '','' then
           parse_loop toFloat input (i + 1)
             (fieldCount + 1, i + 1,
              store_field toFloat fieldCount (substring input lastComma i) tm)
         else parse_loop toFloat input (i + 1) (fieldCount, lastComma, tm))
      else (fieldCount, lastComma, tm))"
  by pat_completeness auto
termination
  by (relation "measure (\<lambda>(toFloat, input, i, st). Suc (length input) - i)") auto

declare parse_loop.simps [simp del]

text \<open>The defaults written before the loop: every field but \<^verbatim>\<open>sliceID\<close>.\<close>

definition init_message :: "CRUMBSMessage \<Rightarrow> CRUMBSMessage" where
  "init_message message =
     (let m1 = message\<lparr>typeID := 0\<rparr>;
          m2 = m1\<lparr>commandType := 0\<rparr>;
          m3 = m2\<lparr>data := fold (\<lambda>i d. d[i := 0]) [0..<6] (data m2)\<rparr>
      in m3\<lparr>errorFlags := 0\<rparr>)"

definition parseSerialInput ::
  "(string \<Rightarrow> float32) \<Rightarrow> string \<Rightarrow> uint8_t \<Rightarrow> CRUMBSMessage
     \<Rightarrow> bool \<times> uint8_t \<times> CRUMBSMessage" where
  "parseSerialInput toFloat input targetAddress message =
     (case parse_loop toFloat input 0 (0, 0, targetAddress, init_message message) of
        (fieldCount, lastComma, tm) \<Rightarrow>
          if fieldCount < 4 then (False, tm) else (True, tm))"

subsection \<open>Fields of a line\<close>

text \<open>
  The comma-delimited fields of a line, as the specification speaks of them: a line
  with \<open>n\<close> commas has \<open>n + 1\<close> fields, some of them possibly empty.
\<close>

fun split_commas :: "string \<Rightarrow> string list" where
  "split_commas [] = [[]]"
| "split_commas (c # cs) =
     (if c = CHR '','' then [] # split_commas cs
      else (case split_commas cs of
              [] \<Rightarrow> [[c]]
            | f # fs \<Rightarrow> (c # f) # fs))"

text \<open>Storing a list of fields in order, the first at position \<open>fieldCount\<close>.\<close>

fun store_fields ::
  "(string \<Rightarrow> float32) \<Rightarrow> nat \<Rightarrow> string list \<Rightarrow> uint8_t \<times> CRUMBSMessage
     \<Rightarrow> uint8_t \<times> CRUMBSMessage" where
  "store_fields toFloat fieldCount [] tm = tm"
| "store_fields toFloat fieldCount (f # fs) tm =
     store_fields toFloat (fieldCount + 1) fs (store_field toFloat fieldCount f tm)"

text \<open>
  The line cut after its first \<open>n\<close> fields: the characters before the \<open>n\<close>-th
  comma, or the whole line when it has fewer commas.
\<close>

fun truncate_fields :: "nat \<Rightarrow> string \<Rightarrow> string" where
  "truncate_fields n [] = []"
| "truncate_fields n (c # cs) =
     (if c = CHR '','' then (if n \<le> 1 then [] else c # truncate_fields (n - 1) cs)
      else c # truncate_fields n cs)"






subsection \<open>handleSerialInput\<close>

text \<open>
  What the sketch does is a trace of events: what it writes to the console, the read
  request it puts on the bus with the delay after it, and the message it hands to
  \<^verbatim>\<open>crumbsMaster.sendMessage\<close>. A printed value keeps its kind: text, an integer
  in decimal, an integer in hexadecimal, a \<^verbatim>\<open>float\<close>.
\<close>

datatype printed = Text string | Dec nat | Hex nat | Flt float32

datatype event =
    Print printed
  | Println printed
  | RequestFrom uint8_t uint8_t
  | Delay nat
  | SendMessage CRUMBSMessage uint8_t

text \<open>
  What the sketch takes from outside: the host's \<^verbatim>\<open>String::toFloat\<close>; the bytes
  that the bus transaction of \<^verbatim>\<open>Wire.requestFrom(address, quantity)\<close> leaves in the
  receive buffer of \<^verbatim>\<open>Wire\<close>; \<^verbatim>\<open>crumbsMaster.decodeMessage(buffer, length,
  response)\<close>, which returns a flag and writes \<^verbatim>\<open>response\<close>; and the contents of the
  locals that are declared without a value (\<^verbatim>\<open>responseBuffer\<close>, \<^verbatim>\<open>response\<close>,
  \<^verbatim>\<open>targetAddress\<close>, \<^verbatim>\<open>message\<close>).
\<close>

record environment =
  env_toFloat :: "string \<Rightarrow> float32"
  wire_response :: "uint8_t \<Rightarrow> uint8_t \<Rightarrow> uint8_t list"
  decodeMessage :: "uint8_t list \<Rightarrow> nat \<Rightarrow> CRUMBSMessage \<Rightarrow> bool \<times> CRUMBSMessage"
  stack_responseBuffer :: "uint8_t list"
  stack_response :: CRUMBSMessage
  stack_targetAddress :: uint8_t
  stack_message :: CRUMBSMessage

text \<open>
  The loop \<^verbatim>\<open>while (Wire.available() && index < CRUMBS_MESSAGE_SIZE)\<close> over the
  unread bytes of the receive buffer: it returns the bytes left unread, the response
  buffer and \<^verbatim>\<open>index\<close>.
\<close>

fun read_response ::
  "uint8_t list \<Rightarrow> uint8_t list \<Rightarrow> nat \<Rightarrow> uint8_t list \<times> uint8_t list \<times> nat" where
  "read_response [] responseBuffer index = ([], responseBuffer, index)"
| "read_response (b # rx) responseBuffer index =
     (if index < CRUMBS_MESSAGE_SIZE
      then read_response rx (responseBuffer[index := b]) (index + 1)
      else (b # rx, responseBuffer, index))"

text \<open>The address of a \<^verbatim>\<open>request=\<close> line (the lines from 94 to 106).\<close>

definition request_address :: "string \<Rightarrow> uint8_t" where
  "request_address input =
     (let addressString = trim (substring input (length ''request='') (length input))
      in if startsWith addressString ''0x'' \<or> startsWith addressString ''0X''
         then ucast (strtol addressString 16)
         else ucast (toInt addressString))"

text \<open>
  The exchange with the peripheral (the lines from 111 to 131): the read request, the
  delay, the read loop, and the call of \<^verbatim>\<open>decodeMessage\<close>. It returns the events
  with what \<^verbatim>\<open>decodeMessage\<close> returned.
\<close>

definition requestResponse :: "environment \<Rightarrow> uint8_t \<Rightarrow> event list \<times> bool \<times> CRUMBSMessage" where
  "requestResponse env targetAddress =
     (let numBytes = (of_nat CRUMBS_MESSAGE_SIZE :: uint8_t);
          rx = wire_response env targetAddress numBytes
      in case read_response rx (stack_responseBuffer env) 0 of
           (rx', responseBuffer, index) \<Rightarrow>
             ([RequestFrom targetAddress numBytes, Delay 50,
               Print (Text ''Master: Received ''), Print (Dec index),
               Println (Text '' bytes from slave.'')],
              decodeMessage env responseBuffer index (stack_response env)))"

definition print_data :: "CRUMBSMessage \<Rightarrow> event list" where
  "print_data m = concat (map (\<lambda>i. [Print (Flt (data m ! i)), Print (Text '' '')]) [0..<6])"

text \<open>What \<^verbatim>\<open>parseSerialInput\<close> writes to the console, from what it returns.\<close>

definition parseSerialInput_output :: "bool \<times> uint8_t \<times> CRUMBSMessage \<Rightarrow> event list" where
  "parseSerialInput_output r =
     (case r of (ok, targetAddress, message) \<Rightarrow>
        if \<not> ok then [Println (Text ''Master: Not enough fields in input.'')]
        else [Println (Text ''Master: Parsed input into CRUMBSMessage and target address.''),
              Print (Text ''Target Address: ''), Println (Hex (unat targetAddress)),
              Print (Text ''Parsed Message -> typeID: ''), Print (Dec (unat (typeID message))),
              Print (Text '', commandType: ''), Print (Dec (unat (commandType message))),
              Print (Text '', data: '')]
             @ print_data message
             @ [Print (Text '', errorFlags: ''), Println (Dec (unat (errorFlags message)))])"

text \<open>
  \<^verbatim>\<open>handleSerialInput\<close>: \<open>serial\<close> is \<open>None\<close> when \<^verbatim>\<open>Serial.available()\<close> is
  zero, and otherwise the line that \<^verbatim>\<open>Serial.readStringUntil\<close> returns.
\<close>

definition handleSerialInput :: "environment \<Rightarrow> string option \<Rightarrow> event list" where
  "handleSerialInput env serial =
     (case serial of
        None \<Rightarrow> []
      | Some line \<Rightarrow>
          let input = trim line;
              echo = [Print (Text ''Master: Received input from serial: ''), Println (Text input)]
          in if startsWith input ''request='' then
               let targetAddress = request_address input
               in case requestResponse env targetAddress of
                    (exchange, ok, response) \<Rightarrow>
                      echo
                      @ [Print (Text ''Master: Requesting data from address: 0x''),
                         Println (Hex (unat targetAddress))]
                      @ exchange
                      @ (if ok then
                           [Println (Text ''Master: Decoded response:''),
                            Print (Text ''typeID: ''), Println (Dec (unat (typeID response))),
                            Print (Text ''commandType: ''), Println (Dec (unat (commandType response))),
                            Print (Text ''data: '')]
                           @ print_data response
                           @ [Println (Text []),
                              Print (Text ''errorFlags: ''), Println (Dec (unat (errorFlags response)))]
                         else [Println (Text ''Master: Failed to decode response.'')])
             else
               let r = parseSerialInput (env_toFloat env) input (stack_targetAddress env) (stack_message env)
               in case r of
                    (parseSuccess, targetAddress, message) \<Rightarrow>
                      echo
                      @ parseSerialInput_output r
                      @ (if parseSuccess then
                           [SendMessage message targetAddress,
                            Println (Text ''Master: Message sent based on serial input.'')]
                         else [Println (Text
                            ''Master: Failed to parse serial input. Please check the format.'')]))"

subsection \<open>The codec\<close>

text \<open>
  \<^verbatim>\<open>encodeMessage\<close> and \<^verbatim>\<open>decodeMessage\<close> belong to the class \<^verbatim>\<open>CRUMBS\<close>,
  whose source the sketch only includes (\<^verbatim>\<open>CRUMBS.h\<close>).
\<close>

datatype error = InsufficientFields | TruncatedMessage | TransportFailure

text \<open>
  Modelled from the spec: the byte order of a float on the wire, which is in the
  absent codec. The wire format is a little-endian-per-field record.
\<close>

definition float_bytes :: "float32 \<Rightarrow> uint8_t list" where
  "float_bytes w = [ucast w, ucast (drop_bit 8 w), ucast (drop_bit 16 w), ucast (drop_bit 24 w)]"

definition float_of_bytes :: "uint8_t \<Rightarrow> uint8_t \<Rightarrow> uint8_t \<Rightarrow> uint8_t \<Rightarrow> float32" where
  "float_of_bytes b0 b1 b2 b3 =
     or (ucast b0) (or (push_bit 8 (ucast b1)) (or (push_bit 16 (ucast b2)) (push_bit 24 (ucast b3))))"

text \<open>
  Modelled from the spec: Encode, which is absent from the source. It writes sliceID,
  typeID, commandType, each of the 6 floats, then errorFlags, in that order with no
  padding between the fields.
\<close>

definition Encode :: "CRUMBSMessage \<Rightarrow> uint8_t list" where
  "Encode m =
     [sliceID m, typeID m, commandType m]
     @ concat (map (\<lambda>i. float_bytes (data m ! i)) [0..<6])
     @ [errorFlags m]"

text \<open>
  Modelled from the spec: Decode, which is absent from the source. It fails with
  \<open>TruncatedMessage\<close> if the length is below 28, and reads the fields in the order of
  Encode; bytes after the 28th are ignored.
\<close>

definition Decode :: "uint8_t list \<Rightarrow> nat \<Rightarrow> error + CRUMBSMessage" where
  "Decode buffer len =
     (if len < 28 then Inl TruncatedMessage
      else Inr \<lparr>sliceID = buffer ! 0, typeID = buffer ! 1, commandType = buffer ! 2,
                data = map (\<lambda>i. float_of_bytes (buffer ! (3 + 4 * i)) (buffer ! (4 + 4 * i))
                                 (buffer ! (5 + 4 * i)) (buffer ! (6 + 4 * i))) [0..<6],
                errorFlags = buffer ! 27\<rparr>)"

text \<open>
  Modelled from the spec: the call \<^verbatim>\<open>decodeMessage(buffer, length, response)\<close> of the
  sketch as Decode: on failure the flag is false and \<^verbatim>\<open>response\<close> is not written.
\<close>

definition decodeMessage_spec :: "uint8_t list \<Rightarrow> nat \<Rightarrow> CRUMBSMessage \<Rightarrow> bool \<times> CRUMBSMessage" where
  "decodeMessage_spec buffer len response =
     (case Decode buffer len of Inl e \<Rightarrow> (False, response) | Inr m \<Rightarrow> (True, m))"

subsection \<open>Values of digit strings, and events of a kind\<close>

text \<open>
  The number that a string of decimal or of hexadecimal digits denotes, to state what
  address a \<^verbatim>\<open>request=\<close> line names.
\<close>

definition isxdigit :: "char \<Rightarrow> bool" where
  "isxdigit c = (isdigit c \<or> (65 \<le> (of_char c :: nat) \<and> (of_char c :: nat) \<le> 70)
      \<or> (97 \<le> (of_char c :: nat) \<and> (of_char c :: nat) \<le> 102))"

definition xdigit_value :: "char \<Rightarrow> nat" where
  "xdigit_value c =
     (if isdigit c then of_char c - 48
      else if 97 \<le> (of_char c :: nat) then of_char c - 87
      else of_char c - 55)"

definition decimal_value :: "string \<Rightarrow> nat" where
  "decimal_value ds = foldl (\<lambda>n c. n * 10 + digit_value c) 0 ds"

definition hex_value :: "string \<Rightarrow> nat" where
  "hex_value ds = foldl (\<lambda>n c. n * 16 + xdigit_value c) 0 ds"

definition is_RequestFrom :: "event \<Rightarrow> bool" where
  "is_RequestFrom e = (case e of RequestFrom a n \<Rightarrow> True | _ \<Rightarrow> False)"

definition is_SendMessage :: "event \<Rightarrow> bool" where
  "is_SendMessage e = (case e of SendMessage m a \<Rightarrow> True | _ \<Rightarrow> False)"

text \<open>
  A conversion of text to \<^verbatim>\<open>float\<close> for the examples: it gives the IEEE-754 patterns
  of 75.0, 2.0, 3.0, 4.0, 5.0 and 6.0 for these texts, and 0.0 for every other text.
\<close>

definition example_toFloat :: "string \<Rightarrow> float32" where
  "example_toFloat s =
     (if s = ''75.0'' then 0x42960000
      else if s = ''2.0'' then 0x40000000
      else if s = ''3.0'' then 0x40400000
      else if s = ''4.0'' then 0x40800000
      else if s = ''5.0'' then 0x40A00000
      else if s = ''6.0'' then 0x40C00000
      else 0)"

section \<open>Properties of the parser\<close>

subsection \<open>The loop stores the comma-delimited fields in order\<close>

lemma split_commas_ne [simp]: "split_commas s \<noteq> []"
  by (induction s) (auto split: list.splits)

lemma split_commas_no_comma: "CHR '','' \<notin> set s \<Longrightarrow> split_commas s = [s]"
  by (induction s) auto

lemma split_commas_append:
  "CHR '','' \<notin> set a \<Longrightarrow> split_commas (a @ CHR '','' # b) = a # split_commas b"
  by (induction a) auto

lemma length_split_commas:
  "length (split_commas s) = Suc (length (filter (\<lambda>c. c = CHR '','') s))"
  by (induction s) (auto split: list.splits)

lemma substring_in_range:
  "lc \<le> i \<Longrightarrow> i \<le> length s \<Longrightarrow> substring s lc i = take (i - lc) (drop lc s)"
  by (auto simp: substring_def Let_def)

lemma parse_loop_end:
  "parse_loop tf input (Suc (length input)) (fc, lc, tm) = (fc, lc, tm)"
  by (subst parse_loop.simps) simp

lemma parse_loop_last:
  "parse_loop tf input (length input) (fc, lc, tm) =
     (Suc fc, Suc (length input), store_field tf fc (substring input lc (length input)) tm)"
  by (subst parse_loop.simps) (simp add: parse_loop_end)

lemma parse_loop_comma:
  "i < length input \<Longrightarrow> input ! i = CHR '','' \<Longrightarrow>
   parse_loop tf input i (fc, lc, tm) =
     parse_loop tf input (Suc i) (Suc fc, Suc i, store_field tf fc (substring input lc i) tm)"
  by (subst parse_loop.simps) simp

lemma parse_loop_other:
  "i < length input \<Longrightarrow> input ! i \<noteq> CHR '','' \<Longrightarrow>
   parse_loop tf input i (fc, lc, tm) = parse_loop tf input (Suc i) (fc, lc, tm)"
  by (subst parse_loop.simps) simp

lemma parse_loop_fields:
  "lc \<le> i \<Longrightarrow> i \<le> length input \<Longrightarrow> CHR '','' \<notin> set (take (i - lc) (drop lc input)) \<Longrightarrow>
   parse_loop tf input i (fc, lc, tm) =
     (fc + length (split_commas (drop lc input)), Suc (length input),
      store_fields tf fc (split_commas (drop lc input)) tm)"
proof (induction "length input - i" arbitrary: i fc lc tm)
  case 0
  then have i: "i = length input" by simp
  have "drop lc input = take (i - lc) (drop lc input)" using i by simp
  then have nc: "CHR '','' \<notin> set (drop lc input)" using 0 by metis
  have sub: "substring input lc i = drop lc input"
    using 0 i by (simp add: substring_in_range)
  show ?case
    using i sub split_commas_no_comma [OF nc]
    by (simp add: parse_loop_last)
next
  case (Suc n)
  then have lt: "i < length input" by simp
  show ?case
  proof (cases "input ! i = CHR '',''")
    case True
    have "drop (i - lc) (drop lc input) = drop i input"
      using Suc.prems(1) by simp
    also have "\<dots> = CHR '','' # drop (Suc i) input"
      using lt True by (simp add: Cons_nth_drop_Suc [symmetric])
    finally have "take (i - lc) (drop lc input) @ drop (i - lc) (drop lc input)
        = take (i - lc) (drop lc input) @ CHR '','' # drop (Suc i) input"
      by simp
    then have d: "drop lc input = take (i - lc) (drop lc input) @ CHR '','' # drop (Suc i) input"
      by (simp only: append_take_drop_id)
    have sc: "split_commas (drop lc input) = take (i - lc) (drop lc input) # split_commas (drop (Suc i) input)"
      using split_commas_append [OF Suc.prems(3), of "drop (Suc i) input"] d by simp
    have ih: "parse_loop tf input (Suc i) (fc', Suc i, tm') =
        (fc' + length (split_commas (drop (Suc i) input)), Suc (length input),
         store_fields tf fc' (split_commas (drop (Suc i) input)) tm')" for fc' tm'
      using Suc.hyps(1) [of "Suc i" "Suc i" fc' tm'] Suc.hyps(2) lt by simp
    show ?thesis
      using True lt Suc.prems(1,2) ih sc
      by (simp add: parse_loop_comma substring_in_range)
  next
    case False
    have "Suc i - lc = Suc (i - lc)"
      using Suc.prems(1) by simp
    moreover have "i - lc < length (drop lc input)"
      using lt Suc.prems(1) by simp
    moreover have "drop lc input ! (i - lc) = input ! i"
      using lt Suc.prems(1) by simp
    ultimately have t: "take (Suc i - lc) (drop lc input) = take (i - lc) (drop lc input) @ [input ! i]"
      by (simp add: take_Suc_conv_app_nth)
    have nc: "CHR '','' \<notin> set (take (Suc i - lc) (drop lc input))"
      using t False Suc.prems(3) by auto
    have ih: "parse_loop tf input (Suc i) (fc, lc, tm) =
        (fc + length (split_commas (drop lc input)), Suc (length input),
         store_fields tf fc (split_commas (drop lc input)) tm)"
      using Suc.hyps(1) [of "Suc i" lc fc tm] Suc.hyps(2) lt Suc.prems(1) nc by simp
    show ?thesis
      using False lt ih by (simp add: parse_loop_other)
  qed
qed

lemma parse_refines:
  "parseSerialInput tf input ta m =
     (4 \<le> length (split_commas input), store_fields tf 0 (split_commas input) (ta, init_message m))"
  using parse_loop_fields [of 0 0 input tf 0 "(ta, init_message m)"]
  by (auto simp: parseSerialInput_def)


lemma store_field_sliceID:
  "sliceID (snd (store_field tf fc f tm)) = sliceID (snd tm)"
  by (cases tm) (simp add: store_field_def)



lemma store_field_errorFlags:
  "errorFlags (snd (store_field tf fc f tm)) = (if fc = 9 then ucast (toInt f) else errorFlags (snd tm))"
  by (cases tm) (simp add: store_field_def)

lemma store_field_length_data:
  "length (data (snd (store_field tf fc f tm))) = length (data (snd tm))"
  by (cases tm) (simp add: store_field_def)

lemma store_field_data:
  "j < length (data (snd tm)) \<Longrightarrow> j < 6 \<Longrightarrow>
   data (snd (store_field tf fc f tm)) ! j = (if fc = j + 3 then tf f else data (snd tm) ! j)"
  by (cases tm) (auto simp: store_field_def nth_list_update)


lemma store_fields_sliceID:
  "sliceID (snd (store_fields tf fc fs tm)) = sliceID (snd tm)"
  by (induction fs arbitrary: fc tm) (auto simp: store_field_sliceID)



lemma store_fields_errorFlags:
  "errorFlags (snd (store_fields tf fc fs tm)) =
     (if fc \<le> 9 \<and> 9 < fc + length fs then ucast (toInt (fs ! (9 - fc))) else errorFlags (snd tm))"
proof (induction fs arbitrary: fc tm)
  case Nil
  then show ?case by auto
next
  case (Cons f fs)
  show ?case
    by (cases "fc = 9"; cases "fc < 9") (auto simp: Cons.IH store_field_errorFlags Suc_diff_le)
qed


lemma store_fields_data:
  "j < length (data (snd tm)) \<Longrightarrow> j < 6 \<Longrightarrow>
   data (snd (store_fields tf fc fs tm)) ! j =
     (if fc \<le> j + 3 \<and> j + 3 < fc + length fs then tf (fs ! (j + 3 - fc)) else data (snd tm) ! j)"
proof (induction fs arbitrary: fc tm)
  case Nil
  then show ?case by auto
next
  case (Cons f fs)
  have l: "j < length (data (snd (store_field tf fc f tm)))"
    using Cons.prems by (simp add: store_field_length_data)
  note ih = Cons.IH [OF l Cons.prems(2), of "Suc fc"]
  note sf = store_field_data [OF Cons.prems, of tf fc f]
  show ?case
    using ih sf by (auto simp: nth_Cons' Suc_diff_le)
qed

subsection \<open>What parseSerialInput returns\<close>

lemma upt_0_6: "[0..<6] = [0, 1, 2, 3, 4, 5]"
  by code_simp

lemma init_message_sliceID: "sliceID (init_message m) = sliceID m"
  by (simp add: init_message_def)



lemma init_message_errorFlags: "errorFlags (init_message m) = 0"
  by (simp add: init_message_def)

lemma length_fold_update: "length (fold (\<lambda>i d. d[i := v]) is xs) = length xs"
  by (induction "is" arbitrary: xs) auto

lemma init_message_length_data: "length (data (init_message m)) = length (data m)"
  by (simp add: init_message_def length_fold_update)

lemma init_message_data:
  "j < length (data m) \<Longrightarrow> j < 6 \<Longrightarrow> data (init_message m) ! j = 0"
  by (auto simp: init_message_def upt_0_6 nth_list_update less_Suc_eq numeral_eq_Suc)

lemma split_commas_0: "split_commas input ! 0 = hd (split_commas input)"
  by (cases "split_commas input") auto

lemma parse_success:
  "fst (parseSerialInput tf input ta m) = (4 \<le> length (split_commas input))"
  by (simp add: parse_refines)


lemma parse_sliceID:
  "sliceID (snd (snd (parseSerialInput tf input ta m))) = sliceID m"
  by (simp add: parse_refines store_fields_sliceID init_message_sliceID)



lemma parse_errorFlags:
  "errorFlags (snd (snd (parseSerialInput tf input ta m))) =
     (if 9 < length (split_commas input) then ucast (toInt (split_commas input ! 9)) else 0)"
  by (simp add: parse_refines store_fields_errorFlags init_message_errorFlags)


lemma parse_data:
  "wf_message m \<Longrightarrow> j < 6 \<Longrightarrow>
   data (snd (snd (parseSerialInput tf input ta m))) ! j =
     (if j + 3 < length (split_commas input) then tf (split_commas input ! (j + 3)) else 0)"
  by (simp add: parse_refines store_fields_data init_message_length_data init_message_data
      wf_message_def)



lemma store_fields_append:
  "store_fields tf fc (a @ b) tm = store_fields tf (fc + length a) b (store_fields tf fc a tm)"
  by (induction a arbitrary: fc tm) auto

lemma store_fields_ignored: "10 \<le> fc \<Longrightarrow> store_fields tf fc fs tm = tm"
  by (induction fs arbitrary: fc tm) (auto simp: store_field_def split: prod.splits)

lemma store_fields_take_10: "store_fields tf 0 fs tm = store_fields tf 0 (take 10 fs) tm"
proof -
  have "store_fields tf 0 (take 10 fs @ drop 10 fs) tm
      = store_fields tf (0 + length (take 10 fs)) (drop 10 fs) (store_fields tf 0 (take 10 fs) tm)"
    by (rule store_fields_append)
  also have "\<dots> = store_fields tf 0 (take 10 fs) tm"
  proof (cases "10 \<le> length fs")
    case True
    then show ?thesis by (simp add: store_fields_ignored min_def)
  next
    case False
    then show ?thesis by simp
  qed
  finally show ?thesis by simp
qed

lemma split_truncate_fields:
  "1 \<le> n \<Longrightarrow> split_commas (truncate_fields n s) = take n (split_commas s)"
proof (induction s arbitrary: n)
  case Nil
  then show ?case by (cases n) auto
next
  case (Cons c cs)
  show ?case
  proof (cases "c = CHR '',''")
    case True
    show ?thesis
    proof (cases "n \<le> 1")
      case True
      with Cons.prems have "n = 1" by simp
      with \<open>c = CHR '',''\<close> show ?thesis by simp
    next
      case False
      then obtain k where k: "n = Suc k" "1 \<le> k" by (cases n) auto
      with \<open>c = CHR '',''\<close> Cons.IH [of k] show ?thesis by simp
    qed
  next
    case False
    obtain f fs where fs: "split_commas cs = f # fs"
      by (cases "split_commas cs") auto
    obtain k where k: "n = Suc k" using Cons.prems by (cases n) auto
    from Cons.IH [OF Cons.prems] fs k False show ?thesis by simp
  qed
qed

lemma truncate_fields_prefix:
  "take (length (truncate_fields n s)) s = truncate_fields n s"
  by (induction s arbitrary: n) auto

lemma init_message_wf:
  "wf_message m \<Longrightarrow>
   init_message m = \<lparr>sliceID = sliceID m, typeID = 0, commandType = 0,
                     data = [0, 0, 0, 0, 0, 0], errorFlags = 0\<rparr>"
proof -
  assume "wf_message m"
  then obtain a b c d e f where "data m = [a, b, c, d, e, f]"
    by (auto simp: wf_message_def length_Suc_conv numeral_eq_Suc)
  then show ?thesis
    by (cases m) (simp add: init_message_def upt_0_6)
qed

lemma toInt_8: "toInt ''8'' = 8"
  by (simp add: toInt_def atol_def isspace_def isdigit_def digit_value_def)

lemma toInt_1: "toInt ''1'' = 1"
  by (simp add: toInt_def atol_def isspace_def isdigit_def digit_value_def)


lemma toInt_empty: "toInt [] = 0"
  by (simp add: toInt_def atol_def)

lemma parse_example_defaulting:
  "wf_message m \<Longrightarrow>
   parseSerialInput tf ''8,1,1,75.0'' ta m =
     (True, 8, \<lparr>sliceID = sliceID m, typeID = 1, commandType = 1,
                data = [tf ''75.0'', 0, 0, 0, 0, 0], errorFlags = 0\<rparr>)"
  by (simp add: parse_refines init_message_wf store_field_def toInt_8 toInt_1)


lemma parse_example_empty_fields:
  "wf_message m \<Longrightarrow>
   parseSerialInput tf '',,,'' ta m =
     (True, 0, \<lparr>sliceID = sliceID m, typeID = 0, commandType = 0,
                data = [tf [], 0, 0, 0, 0, 0], errorFlags = 0\<rparr>)"
  by (simp add: parse_refines init_message_wf store_field_def toInt_empty)




section \<open>Properties of the request path and of the codec\<close>

lemma float_of_bytes_float_bytes:
  "float_of_bytes (ucast w) (ucast (drop_bit 8 w)) (ucast (drop_bit 16 w)) (ucast (drop_bit 24 w)) = w"
proof (rule bit_word_eqI)
  fix n
  assume "n < LENGTH(32)"
  then consider "n < 8" | "8 \<le> n" "n < 16" | "16 \<le> n" "n < 24" | "24 \<le> n" "n < 32"
    by fastforce
  then show "bit (float_of_bytes (ucast w) (ucast (drop_bit 8 w)) (ucast (drop_bit 16 w))
      (ucast (drop_bit 24 w))) n = bit w n"
    by cases (auto simp: float_of_bytes_def bit_simps)
qed

lemma length_Encode: "length (Encode m) = 28"
  by (simp add: Encode_def upt_0_6 float_bytes_def)

lemma Decode_Encode:
  assumes "wf_message m"
  shows "Decode (Encode m) 28 = Inr m"
proof -
  from assms obtain a b c d e f where d: "data m = [a, b, c, d, e, f]"
    by (auto simp: wf_message_def length_Suc_conv numeral_eq_Suc)
  show ?thesis
    using d
    by (cases m) (simp add: Encode_def Decode_def upt_0_6 float_bytes_def float_of_bytes_float_bytes)
qed

lemma read_response_eq:
  "index + min (length rx) (CRUMBS_MESSAGE_SIZE - index) \<le> length buf \<Longrightarrow>
   read_response rx buf index =
     (drop (min (length rx) (CRUMBS_MESSAGE_SIZE - index)) rx,
      take index buf @ take (min (length rx) (CRUMBS_MESSAGE_SIZE - index)) rx
        @ drop (index + min (length rx) (CRUMBS_MESSAGE_SIZE - index)) buf,
      index + min (length rx) (CRUMBS_MESSAGE_SIZE - index))"
proof (induction rx arbitrary: buf index)
  case Nil
  then show ?case by simp
next
  case (Cons b rx)
  show ?case
  proof (cases "index < CRUMBS_MESSAGE_SIZE")
    case False
    then show ?thesis by simp
  next
    case True
    then have "CRUMBS_MESSAGE_SIZE - index = Suc (CRUMBS_MESSAGE_SIZE - Suc index)"
      by arith
    then have m: "min (Suc (length rx)) (CRUMBS_MESSAGE_SIZE - index)
        = Suc (min (length rx) (CRUMBS_MESSAGE_SIZE - Suc index))"
      by (simp only: min_Suc_Suc)
    have lt: "index < length buf"
      using Cons.prems m by simp
    have ih: "read_response rx (buf[index := b]) (Suc index) =
       (drop (min (length rx) (CRUMBS_MESSAGE_SIZE - Suc index)) rx,
        take (Suc index) (buf[index := b]) @ take (min (length rx) (CRUMBS_MESSAGE_SIZE - Suc index)) rx
          @ drop (Suc index + min (length rx) (CRUMBS_MESSAGE_SIZE - Suc index)) (buf[index := b]),
        Suc index + min (length rx) (CRUMBS_MESSAGE_SIZE - Suc index))"
      using Cons.IH [of "Suc index" "buf[index := b]"] Cons.prems m by simp
    have t: "take (Suc index) (buf[index := b]) = take index buf @ [b]"
      using lt by (simp add: take_Suc_conv_app_nth)
    show ?thesis
      using True ih t by (simp add: m del: min.absorb1 min.absorb2 min.absorb3 min.absorb4)
  qed
qed

lemma read_response_index:
  "index \<le> CRUMBS_MESSAGE_SIZE \<Longrightarrow>
   snd (snd (read_response rx buf index)) = min (index + length rx) CRUMBS_MESSAGE_SIZE"
  by (induction rx arbitrary: buf index) auto

lemma requestResponse_eq:
  assumes "length (stack_responseBuffer env) = CRUMBS_MESSAGE_SIZE"
  shows "requestResponse env targetAddress =
     ([RequestFrom targetAddress 28, Delay 50,
       Print (Text ''Master: Received ''),
       Print (Dec (min (length (wire_response env targetAddress 28)) 28)),
       Println (Text '' bytes from slave.'')],
      decodeMessage env
        (take (min (length (wire_response env targetAddress 28)) 28) (wire_response env targetAddress 28)
          @ drop (min (length (wire_response env targetAddress 28)) 28) (stack_responseBuffer env))
        (min (length (wire_response env targetAddress 28)) 28)
        (stack_response env))"
proof -
  have "read_response (wire_response env targetAddress 28) (stack_responseBuffer env) 0 =
     (drop (min (length (wire_response env targetAddress 28)) 28) (wire_response env targetAddress 28),
      take (min (length (wire_response env targetAddress 28)) 28) (wire_response env targetAddress 28)
        @ drop (min (length (wire_response env targetAddress 28)) 28) (stack_responseBuffer env),
      min (length (wire_response env targetAddress 28)) 28)"
    using read_response_eq [of 0 "wire_response env targetAddress 28" "stack_responseBuffer env"] assms
    by (simp add: CRUMBS_MESSAGE_SIZE_def)
  then show ?thesis
    by (simp add: requestResponse_def CRUMBS_MESSAGE_SIZE_def)
qed

lemma requestResponse_index:
  "\<exists>buf. requestResponse env targetAddress =
     ([RequestFrom targetAddress 28, Delay 50,
       Print (Text ''Master: Received ''),
       Print (Dec (min (length (wire_response env targetAddress 28)) 28)),
       Println (Text '' bytes from slave.'')],
      decodeMessage env buf (min (length (wire_response env targetAddress 28)) 28)
        (stack_response env))"
proof -
  obtain rx' buf index where
    r: "read_response (wire_response env targetAddress 28) (stack_responseBuffer env) 0 = (rx', buf, index)"
    by (cases "read_response (wire_response env targetAddress 28) (stack_responseBuffer env) 0") auto
  have "index = min (length (wire_response env targetAddress 28)) 28"
    using read_response_index [of 0 "wire_response env targetAddress 28" "stack_responseBuffer env"] r
    by (simp add: CRUMBS_MESSAGE_SIZE_def)
  then show ?thesis
    using r by (auto simp: requestResponse_def CRUMBS_MESSAGE_SIZE_def)
qed

lemma Decode_truncated: "n < 28 \<Longrightarrow> Decode buffer n = Inl TruncatedMessage"
  by (simp add: Decode_def)

lemma decodeMessage_spec_truncated:
  "n < 28 \<Longrightarrow> decodeMessage_spec buffer n response = (False, response)"
  by (simp add: decodeMessage_spec_def Decode_truncated)

lemma requestResponse_short:
  assumes "decodeMessage env = decodeMessage_spec"
    and "length (wire_response env targetAddress 28) < 28"
  shows "requestResponse env targetAddress =
     ([RequestFrom targetAddress 28, Delay 50,
       Print (Text ''Master: Received ''),
       Print (Dec (length (wire_response env targetAddress 28))),
       Println (Text '' bytes from slave.'')],
      False, stack_response env)"
proof -
  from requestResponse_index [of env targetAddress] obtain buf where
    "requestResponse env targetAddress =
     ([RequestFrom targetAddress 28, Delay 50,
       Print (Text ''Master: Received ''),
       Print (Dec (min (length (wire_response env targetAddress 28)) 28)),
       Println (Text '' bytes from slave.'')],
      decodeMessage env buf (min (length (wire_response env targetAddress 28)) 28)
        (stack_response env))"
    by blast
  then show ?thesis
    using assms by (simp add: decodeMessage_spec_truncated min_def)
qed

lemma handleSerialInput_request:
  assumes "startsWith (trim line) ''request=''"
  shows "handleSerialInput env (Some line) =
     [Print (Text ''Master: Received input from serial: ''), Println (Text (trim line)),
      Print (Text ''Master: Requesting data from address: 0x''),
      Println (Hex (unat (request_address (trim line))))]
     @ fst (requestResponse env (request_address (trim line)))
     @ (if fst (snd (requestResponse env (request_address (trim line)))) then
          [Println (Text ''Master: Decoded response:''),
           Print (Text ''typeID: ''),
           Println (Dec (unat (typeID (snd (snd (requestResponse env (request_address (trim line)))))))),
           Print (Text ''commandType: ''),
           Println (Dec (unat (commandType (snd (snd (requestResponse env (request_address (trim line)))))))),
           Print (Text ''data: '')]
          @ print_data (snd (snd (requestResponse env (request_address (trim line)))))
          @ [Println (Text []),
             Print (Text ''errorFlags: ''),
             Println (Dec (unat (errorFlags (snd (snd (requestResponse env (request_address (trim line))))))))]
        else [Println (Text ''Master: Failed to decode response.'')])"
  using assms
  by (cases "requestResponse env (request_address (trim line))")
     (simp add: handleSerialInput_def Let_def)

lemma substring_to_end: "substring s n (length s) = drop n s"
  by (auto simp: substring_def Let_def)

lemma request_address_eq:
  "request_address input =
     (if startsWith (trim (drop 8 input)) ''0x'' \<or> startsWith (trim (drop 8 input)) ''0X''
      then ucast (strtol (trim (drop 8 input)) 16)
      else ucast (toInt (trim (drop 8 input))))"
proof -
  have "length ''request='' = 8"
    by simp
  then have e: "drop (length ''request='') input = drop 8 input"
    by (simp only:)
  show ?thesis
    unfolding request_address_def substring_to_end Let_def e ..
qed

lemma dropWhile_id: "s = [] \<or> \<not> P (hd s) \<Longrightarrow> dropWhile P s = s"
  by (cases s) auto

lemma trim_id: "s = [] \<or> (\<not> isspace (hd s) \<and> \<not> isspace (last s)) \<Longrightarrow> trim s = s"
proof -
  assume a: "s = [] \<or> (\<not> isspace (hd s) \<and> \<not> isspace (last s))"
  then have 1: "dropWhile isspace s = s"
    by (auto intro: dropWhile_id)
  have "rev s = [] \<or> \<not> isspace (hd (rev s))"
    using a by (auto simp: hd_rev)
  then have 2: "dropWhile isspace (rev s) = rev s"
    by (rule dropWhile_id)
  show ?thesis
    by (simp add: trim_def 1 2)
qed

lemma isdigit_not_space: "isdigit c \<Longrightarrow> \<not> isspace c"
  by (auto simp: isdigit_def isspace_def)

lemma isxdigit_not_space: "isxdigit c \<Longrightarrow> \<not> isspace c"
  by (auto simp: isxdigit_def isdigit_def isspace_def)

lemma isdigit_not_sign: "isdigit c \<Longrightarrow> c \<noteq> CHR ''-'' \<and> c \<noteq> CHR ''+'' \<and> c \<noteq> CHR ''x'' \<and> c \<noteq> CHR ''X''"
  by (auto simp: isdigit_def)

lemma strtol_digit_xdigit:
  "isxdigit c \<Longrightarrow> strtol_digit c = Some (int (xdigit_value c)) \<and> xdigit_value c < 16"
  by (auto simp: isxdigit_def isdigit_def strtol_digit_def xdigit_value_def Let_def
      of_nat_of_char [where ?'a = int, symmetric])

lemma strtol_digits_hex:
  "list_all isxdigit ds \<Longrightarrow>
   strtol_digits 16 ds (int a) = int (foldl (\<lambda>n c. n * 16 + xdigit_value c) a ds)"
proof (induction ds arbitrary: a)
  case Nil
  then show ?case by simp
next
  case (Cons c ds)
  then have c: "strtol_digit c = Some (int (xdigit_value c))" "xdigit_value c < 16"
    and ds: "list_all isxdigit ds"
    by (simp_all add: strtol_digit_xdigit)
  have "int a * 16 + int (xdigit_value c) = int (a * 16 + xdigit_value c)"
    by simp
  then show ?case
    using c Cons.IH [OF ds, of "a * 16 + xdigit_value c"] by simp
qed

lemma strtol_hex:
  assumes "list_all isxdigit ds" and "p = ''0x'' \<or> p = ''0X''"
  shows "strtol (p @ ds) 16 =
     (if hex_value ds > 2147483647 then 2147483647 else of_nat (hex_value ds))"
proof -
  have n: "strtol_digits 16 ds 0 = int (hex_value ds)"
    using strtol_digits_hex [OF assms(1), of 0] by (simp add: hex_value_def)
  show ?thesis
    using assms(2) by (auto simp: strtol_def isspace_def n)
qed

lemma atol_digits_decimal:
  "list_all isdigit ds \<Longrightarrow>
   atol_digits ds (of_nat a) = of_nat (foldl (\<lambda>n c. n * 10 + digit_value c) a ds)"
proof (induction ds arbitrary: a)
  case Nil
  then show ?case by simp
next
  case (Cons c ds)
  then have c: "isdigit c" and ds: "list_all isdigit ds"
    by simp_all
  have "(of_nat a :: 32 word) * 10 + of_nat (digit_value c) = of_nat (a * 10 + digit_value c)"
    by simp
  then show ?case
    using c Cons.IH [OF ds, of "a * 10 + digit_value c"] by simp
qed

lemma toInt_decimal:
  assumes "list_all isdigit ds"
  shows "toInt ds = of_nat (decimal_value ds)"
proof (cases ds)
  case Nil
  then show ?thesis by (simp add: toInt_def atol_def decimal_value_def)
next
  case (Cons c cs)
  then have c: "isdigit c" using assms by simp
  have d: "dropWhile isspace ds = c # cs"
    using Cons c by (simp add: isdigit_not_space)
  have "atol_digits ds 0 = of_nat (decimal_value ds)"
    using atol_digits_decimal [OF assms, of 0] by (simp add: decimal_value_def)
  then show ?thesis
    using c isdigit_not_sign [OF c] Cons
    unfolding toInt_def atol_def d by simp
qed

lemma trim_digits: "list_all isdigit ds \<Longrightarrow> trim ds = ds"
proof (rule trim_id)
  assume a: "list_all isdigit ds"
  show "ds = [] \<or> \<not> isspace (hd ds) \<and> \<not> isspace (last ds)"
  proof (cases ds)
    case Nil
    then show ?thesis by simp
  next
    case (Cons c cs)
    then have "hd ds \<in> set ds" "last ds \<in> set ds" by auto
    then show ?thesis
      using a by (auto simp: list_all_iff isdigit_not_space)
  qed
qed

lemma trim_hex:
  assumes "list_all isxdigit ds" and "p = ''0x'' \<or> p = ''0X''"
  shows "trim (p @ ds) = p @ ds"
proof (rule trim_id)
  have h: "\<not> isspace (hd (p @ ds))"
    using assms(2) by (auto simp: isspace_def)
  have l: "\<not> isspace (last (p @ ds))"
  proof (cases "ds = []")
    case True
    then show ?thesis using assms(2) by (auto simp: isspace_def)
  next
    case False
    then have "last (p @ ds) \<in> set ds" by simp
    then show ?thesis
      using assms(1) by (auto simp: list_all_iff isxdigit_not_space)
  qed
  show "p @ ds = [] \<or> \<not> isspace (hd (p @ ds)) \<and> \<not> isspace (last (p @ ds))"
    using h l by simp
qed

lemma digits_not_hex_prefix:
  "list_all isdigit ds \<Longrightarrow> \<not> startsWith ds ''0x'' \<and> \<not> startsWith ds ''0X''"
proof -
  assume a: "list_all isdigit ds"
  have "\<not> isdigit CHR ''x''" "\<not> isdigit CHR ''X''"
    by (simp_all add: isdigit_def)
  then show ?thesis
    using a by (cases ds; cases "tl ds") (auto simp: startsWith_def)
qed

lemma ucast_of_nat_32_8: "ucast (of_nat n :: 32 word) = (of_nat n :: 8 word)"
  by (simp add: unsigned_of_nat take_bit_of_nat [symmetric] take_bit_word_eq_self
      del: take_bit_of_nat)

lemma request_address_hex:
  assumes "list_all isxdigit ds" and "p = ''0x'' \<or> p = ''0X''"
  shows "request_address (''request='' @ p @ ds) =
     (if hex_value ds > 2147483647 then 255 else of_nat (hex_value ds))"
proof -
  have d: "drop 8 (''request='' @ p @ ds) = p @ ds"
    by simp
  have s: "startsWith (p @ ds) ''0x'' \<or> startsWith (p @ ds) ''0X''"
    using assms(2) by (auto simp: startsWith_def)
  have u: "ucast (of_nat (hex_value ds) :: 32 word) = (of_nat (hex_value ds) :: 8 word)"
    by (rule ucast_of_nat_32_8)
  show ?thesis
    unfolding request_address_eq d trim_hex [OF assms] strtol_hex [OF assms]
    using s u by simp
qed

lemma request_address_decimal:
  assumes "list_all isdigit ds"
  shows "request_address (''request='' @ ds) = of_nat (decimal_value ds)"
proof -
  have d: "drop 8 (''request='' @ ds) = ds"
    by simp
  have u: "ucast (of_nat (decimal_value ds) :: 32 word) = (of_nat (decimal_value ds) :: 8 word)"
    by (rule ucast_of_nat_32_8)
  show ?thesis
    unfolding request_address_eq d trim_digits [OF assms] toInt_decimal [OF assms]
    using digits_not_hex_prefix [OF assms] u by simp
qed

lemma print_data_events:
  "filter is_SendMessage (print_data m) = [] \<and> filter is_RequestFrom (print_data m) = []"
  by (simp add: print_data_def upt_0_6 is_SendMessage_def is_RequestFrom_def)

lemma requestResponse_events:
  "filter is_SendMessage (fst (requestResponse env a)) = []
   \<and> filter is_RequestFrom (fst (requestResponse env a)) = [RequestFrom a 28]"
proof -
  from requestResponse_index [of env a] obtain buf where
    "requestResponse env a =
     ([RequestFrom a 28, Delay 50,
       Print (Text ''Master: Received ''),
       Print (Dec (min (length (wire_response env a 28)) 28)),
       Println (Text '' bytes from slave.'')],
      decodeMessage env buf (min (length (wire_response env a 28)) 28)
        (stack_response env))"
    by blast
  then show ?thesis
    by (simp add: is_SendMessage_def is_RequestFrom_def)
qed

lemma handleSerialInput_request_events:
  assumes "startsWith (trim line) ''request=''"
  shows "filter is_SendMessage (handleSerialInput env (Some line)) = []"
    and "filter is_RequestFrom (handleSerialInput env (Some line))
           = [RequestFrom (request_address (trim line)) 28]"
  unfolding handleSerialInput_request [OF assms]
  by (simp_all add: requestResponse_events print_data_events is_SendMessage_def is_RequestFrom_def)

lemma requestResponse_independent:
  "requestResponse (env\<lparr>env_toFloat := tf, stack_targetAddress := ta, stack_message := m\<rparr>) a
     = requestResponse env a"
  by (simp add: requestResponse_def)

lemma handleSerialInput_request_independent:
  assumes "startsWith (trim line) ''request=''"
  shows "handleSerialInput (env\<lparr>env_toFloat := tf, stack_targetAddress := ta, stack_message := m\<rparr>)
       (Some line) = handleSerialInput env (Some line)"
  unfolding handleSerialInput_request [OF assms] requestResponse_independent ..

lemma request_address_examples:
  "request_address ''request=0x08'' = 8" "request_address ''request=8'' = 8"
  by (simp_all add: request_address_eq trim_def isspace_def startsWith_def strtol_def
      strtol_digit_def toInt_def atol_def isdigit_def digit_value_def)

section \<open>The claims\<close>

text \<open>
  C1. For every message \<open>m\<close> (with its six data slots), decoding the buffer produced by
  encoding \<open>m\<close>, with length 28, succeeds and yields \<open>m\<close>: every field is equal, the
  six floats bit for bit. The encoded form has exactly 28 bytes. Encode and Decode are
  the ones of the specification: the codec is not in the source.
\<close>

theorem Decode_Encode_roundtrip:
  "length (Encode m) = CRUMBS_MESSAGE_SIZE
   \<and> (wf_message m \<longrightarrow> Decode (Encode m) CRUMBS_MESSAGE_SIZE = Inr m)"
  by (simp add: length_Encode CRUMBS_MESSAGE_SIZE_def Decode_Encode)

theorem Decode_Encode_roundtrip_witness:
  "wf_message \<lparr>sliceID = 2, typeID = 1, commandType = 1,
      data = [0x42960000, 0x3F800000, 0, 0x42820000, 0x40000000, 0x40E00000], errorFlags = 0\<rparr>
   \<and> Encode \<lparr>sliceID = 2, typeID = 1, commandType = 1,
      data = [0x42960000, 0x3F800000, 0, 0x42820000, 0x40000000, 0x40E00000], errorFlags = 0\<rparr>
     = [2, 1, 1, 0, 0, 0x96, 0x42, 0, 0, 0x80, 0x3F, 0, 0, 0, 0, 0, 0, 0x82, 0x42,
        0, 0, 0, 0x40, 0, 0, 0xE0, 0x40, 0]
   \<and> Decode [2, 1, 1, 0, 0, 0x96, 0x42, 0, 0, 0x80, 0x3F, 0, 0, 0, 0, 0, 0, 0x82, 0x42,
        0, 0, 0, 0x40, 0, 0, 0xE0, 0x40, 0] CRUMBS_MESSAGE_SIZE
     = Inr \<lparr>sliceID = 2, typeID = 1, commandType = 1,
      data = [0x42960000, 0x3F800000, 0, 0x42820000, 0x40000000, 0x40E00000], errorFlags = 0\<rparr>"
proof -
  have w: "wf_message \<lparr>sliceID = 2, typeID = 1, commandType = 1,
      data = [0x42960000, 0x3F800000, 0, 0x42820000, 0x40000000, 0x40E00000], errorFlags = 0\<rparr>"
    by (simp add: wf_message_def)
  have e: "Encode \<lparr>sliceID = 2, typeID = 1, commandType = 1,
      data = [0x42960000, 0x3F800000, 0, 0x42820000, 0x40000000, 0x40E00000], errorFlags = 0\<rparr>
     = [2, 1, 1, 0, 0, 0x96, 0x42, 0, 0, 0x80, 0x3F, 0, 0, 0, 0, 0, 0, 0x82, 0x42,
        0, 0, 0, 0x40, 0, 0, 0xE0, 0x40, 0]"
    by (simp add: Encode_def upt_0_6 float_bytes_def drop_bit_eq_div)
  show ?thesis
    using w e Decode_Encode_roundtrip [of "\<lparr>sliceID = 2, typeID = 1, commandType = 1,
      data = [0x42960000, 0x3F800000, 0, 0x42820000, 0x40000000, 0x40E00000], errorFlags = 0\<rparr>"]
    by simp
qed

text \<open>
  C2. The claim: before any field is parsed, every field of the output message is reset
  to zero, \<^verbatim>\<open>sliceID\<close> included. The code resets \<^verbatim>\<open>typeID\<close>, \<^verbatim>\<open>commandType\<close>,
  the six data slots and \<^verbatim>\<open>errorFlags\<close>, and never writes \<^verbatim>\<open>sliceID\<close>: for every
  line the returned message has the \<^verbatim>\<open>sliceID\<close> that the caller's object held before
  the call, here 171 for the line \<^verbatim>\<open>8,1,1,75.0\<close>.
\<close>

theorem parse_leaves_sliceID:
  "sliceID (snd (snd (parseSerialInput tf input ta m))) = sliceID m
   \<and> sliceID (snd (snd (parseSerialInput tf ''8,1,1,75.0'' ta
        \<lparr>sliceID = 171, typeID = 7, commandType = 9, data = [1, 2, 3, 4, 5, 6],
         errorFlags = 3\<rparr>))) = 171"
  by (simp add: parse_sliceID)

text \<open>
  C3. For every buffer and every length below 28, Decode fails with
  \<open>TruncatedMessage\<close>. On the request path, when fewer than 28 bytes arrive, the
  exchange returns the failure flag and leaves \<^verbatim>\<open>response\<close> as it was, and the sketch
  prints the failure line and no field of a message. Decode is the one of the
  specification.
\<close>

theorem short_read_fails:
  "(n < 28 \<longrightarrow> Decode buffer n = Inl TruncatedMessage)
   \<and> (decodeMessage env = decodeMessage_spec
        \<and> length (wire_response env targetAddress 28) < 28 \<longrightarrow>
        requestResponse env targetAddress =
          ([RequestFrom targetAddress 28, Delay 50,
            Print (Text ''Master: Received ''),
            Print (Dec (length (wire_response env targetAddress 28))),
            Println (Text '' bytes from slave.'')],
           False, stack_response env))
   \<and> (decodeMessage env = decodeMessage_spec
        \<and> startsWith (trim line) ''request=''
        \<and> length (wire_response env (request_address (trim line)) 28) < 28 \<longrightarrow>
        handleSerialInput env (Some line) =
          [Print (Text ''Master: Received input from serial: ''), Println (Text (trim line)),
           Print (Text ''Master: Requesting data from address: 0x''),
           Println (Hex (unat (request_address (trim line)))),
           RequestFrom (request_address (trim line)) 28, Delay 50,
           Print (Text ''Master: Received ''),
           Print (Dec (length (wire_response env (request_address (trim line)) 28))),
           Println (Text '' bytes from slave.''),
           Println (Text ''Master: Failed to decode response.'')])"
proof -
  have a: "n < 28 \<longrightarrow> Decode buffer n = Inl TruncatedMessage"
    by (simp add: Decode_truncated)
  have b: "decodeMessage env = decodeMessage_spec
        \<and> length (wire_response env targetAddress 28) < 28 \<longrightarrow>
        requestResponse env targetAddress =
          ([RequestFrom targetAddress 28, Delay 50,
            Print (Text ''Master: Received ''),
            Print (Dec (length (wire_response env targetAddress 28))),
            Println (Text '' bytes from slave.'')],
           False, stack_response env)"
    using requestResponse_short [of env targetAddress] by blast
  have c: "decodeMessage env = decodeMessage_spec
        \<and> startsWith (trim line) ''request=''
        \<and> length (wire_response env (request_address (trim line)) 28) < 28 \<longrightarrow>
        handleSerialInput env (Some line) =
          [Print (Text ''Master: Received input from serial: ''), Println (Text (trim line)),
           Print (Text ''Master: Requesting data from address: 0x''),
           Println (Hex (unat (request_address (trim line)))),
           RequestFrom (request_address (trim line)) 28, Delay 50,
           Print (Text ''Master: Received ''),
           Print (Dec (length (wire_response env (request_address (trim line)) 28))),
           Println (Text '' bytes from slave.''),
           Println (Text ''Master: Failed to decode response.'')]"
  proof (intro impI, elim conjE)
    assume d: "decodeMessage env = decodeMessage_spec"
      and s: "startsWith (trim line) ''request=''"
      and l: "length (wire_response env (request_address (trim line)) 28) < 28"
    show "handleSerialInput env (Some line) =
          [Print (Text ''Master: Received input from serial: ''), Println (Text (trim line)),
           Print (Text ''Master: Requesting data from address: 0x''),
           Println (Hex (unat (request_address (trim line)))),
           RequestFrom (request_address (trim line)) 28, Delay 50,
           Print (Text ''Master: Received ''),
           Print (Dec (length (wire_response env (request_address (trim line)) 28))),
           Println (Text '' bytes from slave.''),
           Println (Text ''Master: Failed to decode response.'')]"
      unfolding handleSerialInput_request [OF s] requestResponse_short [OF d l]
      by simp
  qed
  from a b c show ?thesis by blast
qed

theorem short_read_fails_witness:
  "(3::nat) < 28 \<and> Decode [1, 2, 3] 3 = Inl TruncatedMessage
   \<and> startsWith (trim ''request=0x08'') ''request=''
   \<and> handleSerialInput
      \<lparr>env_toFloat = (\<lambda>s. 0), wire_response = (\<lambda>a n. [1, 2, 3]),
       decodeMessage = decodeMessage_spec,
       stack_responseBuffer = replicate 28 9,
       stack_response = \<lparr>sliceID = 0, typeID = 0, commandType = 0, data = [0, 0, 0, 0, 0, 0], errorFlags = 0\<rparr>,
       stack_targetAddress = 0,
       stack_message = \<lparr>sliceID = 0, typeID = 0, commandType = 0, data = [0, 0, 0, 0, 0, 0], errorFlags = 0\<rparr>\<rparr>
      (Some ''request=0x08'')
     = [Print (Text ''Master: Received input from serial: ''), Println (Text ''request=0x08''),
        Print (Text ''Master: Requesting data from address: 0x''), Println (Hex 8),
        RequestFrom 8 28, Delay 50,
        Print (Text ''Master: Received ''), Print (Dec 3),
        Println (Text '' bytes from slave.''),
        Println (Text ''Master: Failed to decode response.'')]"
proof -
  have t: "trim ''request=0x08'' = ''request=0x08''"
    by (simp add: trim_def isspace_def)
  have s: "startsWith (trim ''request=0x08'') ''request=''"
    by (simp add: t startsWith_def)
  have a: "request_address ''request=0x08'' = 8"
    by (rule request_address_examples)
  show ?thesis
    using s short_read_fails [of 3 "[1, 2, 3]"
      "\<lparr>env_toFloat = (\<lambda>s. 0), wire_response = (\<lambda>a n. [1, 2, 3]),
       decodeMessage = decodeMessage_spec,
       stack_responseBuffer = replicate 28 9,
       stack_response = \<lparr>sliceID = 0, typeID = 0, commandType = 0, data = [0, 0, 0, 0, 0, 0], errorFlags = 0\<rparr>,
       stack_targetAddress = 0,
       stack_message = \<lparr>sliceID = 0, typeID = 0, commandType = 0, data = [0, 0, 0, 0, 0, 0], errorFlags = 0\<rparr>\<rparr>"
      8 "''request=0x08''"]
    by (simp add: t a)
qed

text \<open>
  C4. For every line, parseSerialInput returns false exactly when the line has fewer
  than 4 comma-delimited fields, where a line with \<open>n\<close> commas has \<open>n + 1\<close> fields; it
  returns true in every other case, whatever the text of the fields. The line
  \<^verbatim>\<open>8,1\<close> fails.
\<close>

theorem parse_fails_iff_fewer_than_4_fields:
  "fst (parseSerialInput tf input ta m) = (\<not> length (split_commas input) < 4)
   \<and> length (split_commas input) = Suc (length (filter (\<lambda>c. c = CHR '','') input))
   \<and> fst (parseSerialInput tf ''8,1'' ta m) = False"
  by (simp add: parse_success length_split_commas not_less)

text \<open>
  C5. The exchange puts exactly one read request on the bus, for 28 bytes from the
  given address, waits the delay of 50 ms, then reads one byte at a time into the buffer
  until 28 bytes are read or none is left, and calls \<^verbatim>\<open>decodeMessage\<close> with the
  buffer and the number of bytes read: the minimum of 28 and the number of bytes
  available.
\<close>

theorem requestResponse_reads_once:
  "length (stack_responseBuffer env) = CRUMBS_MESSAGE_SIZE \<Longrightarrow>
   requestResponse env targetAddress =
     ([RequestFrom targetAddress 28, Delay 50,
       Print (Text ''Master: Received ''),
       Print (Dec (min (length (wire_response env targetAddress 28)) 28)),
       Println (Text '' bytes from slave.'')],
      decodeMessage env
        (take (min (length (wire_response env targetAddress 28)) 28) (wire_response env targetAddress 28)
          @ drop (min (length (wire_response env targetAddress 28)) 28) (stack_responseBuffer env))
        (min (length (wire_response env targetAddress 28)) 28)
        (stack_response env))
   \<and> read_response rx (stack_responseBuffer env) 0 =
       (drop (min (length rx) 28) rx,
        take (min (length rx) 28) rx @ drop (min (length rx) 28) (stack_responseBuffer env),
        min (length rx) 28)"
proof -
  assume l: "length (stack_responseBuffer env) = CRUMBS_MESSAGE_SIZE"
  have "read_response rx (stack_responseBuffer env) 0 =
       (drop (min (length rx) 28) rx,
        take (min (length rx) 28) rx @ drop (min (length rx) 28) (stack_responseBuffer env),
        min (length rx) 28)"
    using read_response_eq [of 0 rx "stack_responseBuffer env"] l
    by (simp add: CRUMBS_MESSAGE_SIZE_def)
  with requestResponse_eq [OF l] show ?thesis by blast
qed

theorem requestResponse_reads_once_witness:
  "length (stack_responseBuffer
      \<lparr>env_toFloat = (\<lambda>s. 0), wire_response = (\<lambda>a n. [1, 2, 3]),
       decodeMessage = (\<lambda>buf n r. (28 \<le> n, r)),
       stack_responseBuffer = replicate 28 9,
       stack_response = \<lparr>sliceID = 0, typeID = 0, commandType = 0, data = [0, 0, 0, 0, 0, 0], errorFlags = 0\<rparr>,
       stack_targetAddress = 0,
       stack_message = \<lparr>sliceID = 0, typeID = 0, commandType = 0, data = [0, 0, 0, 0, 0, 0], errorFlags = 0\<rparr>\<rparr>)
     = CRUMBS_MESSAGE_SIZE
   \<and> requestResponse
      \<lparr>env_toFloat = (\<lambda>s. 0), wire_response = (\<lambda>a n. [1, 2, 3]),
       decodeMessage = (\<lambda>buf n r. (28 \<le> n, r)),
       stack_responseBuffer = replicate 28 9,
       stack_response = \<lparr>sliceID = 0, typeID = 0, commandType = 0, data = [0, 0, 0, 0, 0, 0], errorFlags = 0\<rparr>,
       stack_targetAddress = 0,
       stack_message = \<lparr>sliceID = 0, typeID = 0, commandType = 0, data = [0, 0, 0, 0, 0, 0], errorFlags = 0\<rparr>\<rparr>
      8
     = ([RequestFrom 8 28, Delay 50, Print (Text ''Master: Received ''), Print (Dec 3),
         Println (Text '' bytes from slave.'')],
        False,
        \<lparr>sliceID = 0, typeID = 0, commandType = 0, data = [0, 0, 0, 0, 0, 0], errorFlags = 0\<rparr>)
   \<and> read_response [1, 2, 3] (replicate 28 9) 0 = ([], [1, 2, 3] @ replicate 25 9, 3)"
proof -
  have l: "length (stack_responseBuffer
      \<lparr>env_toFloat = (\<lambda>s. 0), wire_response = (\<lambda>a n. [1, 2, 3]),
       decodeMessage = (\<lambda>buf n r. (28 \<le> n, r)),
       stack_responseBuffer = replicate 28 9,
       stack_response = \<lparr>sliceID = 0, typeID = 0, commandType = 0, data = [0, 0, 0, 0, 0, 0], errorFlags = 0\<rparr>,
       stack_targetAddress = 0,
       stack_message = \<lparr>sliceID = 0, typeID = 0, commandType = 0, data = [0, 0, 0, 0, 0, 0], errorFlags = 0\<rparr>\<rparr>)
     = CRUMBS_MESSAGE_SIZE"
    by (simp add: CRUMBS_MESSAGE_SIZE_def)
  show ?thesis
    using l requestResponse_reads_once [OF l, of 8 "[1, 2, 3]"]
    by simp
qed

text \<open>
  C6. For every line that starts with \<^verbatim>\<open>request=\<close>: the trace has no
  \<^verbatim>\<open>sendMessage\<close> event and exactly one read request, for 28 bytes from the address
  of the line, and it does not depend on anything the parser of messages would use.
  The address is \<^verbatim>\<open>strtol\<close> in base 16 of the text after the prefix when that text
  starts with \<^verbatim>\<open>0x\<close> or \<^verbatim>\<open>0X\<close>, and \<^verbatim>\<open>toInt\<close> of it otherwise, cast to 8
  bits: for hexadecimal digits after \<^verbatim>\<open>0x\<close> their value (255 when it exceeds
  \<^verbatim>\<open>LONG_MAX\<close>), for decimal digits their value when it is at most
  \<^verbatim>\<open>LONG_MAX\<close>, both modulo 256. The lines
  \<^verbatim>\<open>request=0x08\<close> and \<^verbatim>\<open>request=8\<close> both give the address 8.
\<close>

theorem request_line_address:
  "(startsWith (trim line) ''request='' \<longrightarrow>
      filter is_SendMessage (handleSerialInput env (Some line)) = []
      \<and> filter is_RequestFrom (handleSerialInput env (Some line))
          = [RequestFrom (request_address (trim line)) 28]
      \<and> handleSerialInput (env\<lparr>env_toFloat := tf, stack_targetAddress := ta, stack_message := m\<rparr>)
          (Some line) = handleSerialInput env (Some line))
   \<and> request_address input =
       (if startsWith (trim (drop 8 input)) ''0x'' \<or> startsWith (trim (drop 8 input)) ''0X''
        then ucast (strtol (trim (drop 8 input)) 16)
        else ucast (toInt (trim (drop 8 input))))
   \<and> (list_all isxdigit ds \<longrightarrow>
        request_address (''request=0x'' @ ds)
          = (if hex_value ds > 2147483647 then 255 else of_nat (hex_value ds))
        \<and> request_address (''request=0X'' @ ds)
          = (if hex_value ds > 2147483647 then 255 else of_nat (hex_value ds)))
   \<and> (list_all isdigit ds \<and> decimal_value ds \<le> 2147483647 \<longrightarrow>
        request_address (''request='' @ ds) = of_nat (decimal_value ds))
   \<and> request_address ''request=0x08'' = 8
   \<and> request_address ''request=8'' = 8"
proof -
  have a: "startsWith (trim line) ''request='' \<longrightarrow>
      filter is_SendMessage (handleSerialInput env (Some line)) = []
      \<and> filter is_RequestFrom (handleSerialInput env (Some line))
          = [RequestFrom (request_address (trim line)) 28]
      \<and> handleSerialInput (env\<lparr>env_toFloat := tf, stack_targetAddress := ta, stack_message := m\<rparr>)
          (Some line) = handleSerialInput env (Some line)"
    by (simp add: handleSerialInput_request_events handleSerialInput_request_independent)
  have b: "list_all isxdigit ds \<longrightarrow>
        request_address (''request=0x'' @ ds)
          = (if hex_value ds > 2147483647 then 255 else of_nat (hex_value ds))
        \<and> request_address (''request=0X'' @ ds)
          = (if hex_value ds > 2147483647 then 255 else of_nat (hex_value ds))"
  proof
    assume h: "list_all isxdigit ds"
    show "request_address (''request=0x'' @ ds)
          = (if hex_value ds > 2147483647 then 255 else of_nat (hex_value ds))
        \<and> request_address (''request=0X'' @ ds)
          = (if hex_value ds > 2147483647 then 255 else of_nat (hex_value ds))"
      using request_address_hex [OF h, of "''0x''"] request_address_hex [OF h, of "''0X''"]
      by simp
  qed
  have c: "list_all isdigit ds \<and> decimal_value ds \<le> 2147483647 \<longrightarrow>
        request_address (''request='' @ ds) = of_nat (decimal_value ds)"
    using request_address_decimal [of ds] by blast
  from a request_address_eq [of input] b c request_address_examples
  show ?thesis by blast
qed

theorem request_line_address_witness:
  "startsWith (trim ''request=0x08'') ''request=''
   \<and> list_all isxdigit ''08'' \<and> list_all isdigit ''8''
   \<and> hex_value ''08'' = 8 \<and> decimal_value ''8'' = 8
   \<and> request_address ''request=0x08'' = 8 \<and> request_address ''request=8'' = 8
   \<and> filter is_RequestFrom (handleSerialInput
      \<lparr>env_toFloat = (\<lambda>s. 0), wire_response = (\<lambda>a n. [1, 2, 3]),
       decodeMessage = (\<lambda>buf n r. (28 \<le> n, r)),
       stack_responseBuffer = replicate 28 9,
       stack_response = \<lparr>sliceID = 0, typeID = 0, commandType = 0, data = [0, 0, 0, 0, 0, 0], errorFlags = 0\<rparr>,
       stack_targetAddress = 0,
       stack_message = \<lparr>sliceID = 0, typeID = 0, commandType = 0, data = [0, 0, 0, 0, 0, 0], errorFlags = 0\<rparr>\<rparr>
      (Some ''request=0x08'')) = [RequestFrom 8 28]
   \<and> filter is_SendMessage (handleSerialInput
      \<lparr>env_toFloat = (\<lambda>s. 0), wire_response = (\<lambda>a n. [1, 2, 3]),
       decodeMessage = (\<lambda>buf n r. (28 \<le> n, r)),
       stack_responseBuffer = replicate 28 9,
       stack_response = \<lparr>sliceID = 0, typeID = 0, commandType = 0, data = [0, 0, 0, 0, 0, 0], errorFlags = 0\<rparr>,
       stack_targetAddress = 0,
       stack_message = \<lparr>sliceID = 0, typeID = 0, commandType = 0, data = [0, 0, 0, 0, 0, 0], errorFlags = 0\<rparr>\<rparr>
      (Some ''request=0x08'')) = []"
proof -
  have t: "trim ''request=0x08'' = ''request=0x08''"
    by (simp add: trim_def isspace_def)
  have s: "startsWith (trim ''request=0x08'') ''request=''"
    by (simp add: t startsWith_def)
  have x: "list_all isxdigit ''08''" "list_all isdigit ''8''"
    by (simp_all add: isxdigit_def isdigit_def)
  have v: "hex_value ''08'' = 8" "decimal_value ''8'' = 8"
    by (simp_all add: hex_value_def decimal_value_def xdigit_value_def digit_value_def isdigit_def)
  define env where "env =
      \<lparr>env_toFloat = (\<lambda>s. 0), wire_response = (\<lambda>a n. [1, 2, 3]),
       decodeMessage = (\<lambda>buf n r. (28 \<le> n, r)),
       stack_responseBuffer = replicate 28 9,
       stack_response = \<lparr>sliceID = 0, typeID = 0, commandType = 0, data = [0, 0, 0, 0, 0, 0], errorFlags = 0\<rparr>,
       stack_targetAddress = 0,
       stack_message = \<lparr>sliceID = 0, typeID = 0, commandType = 0, data = [0, 0, 0, 0, 0, 0], errorFlags = 0\<rparr>\<rparr>"
  from s x request_line_address [where line = "''request=0x08''" and ds = "''08''" and env = env
      and input = "''request=8''" and tf = "\<lambda>s. 0" and ta = 0 and m = "stack_message env"]
  have "filter is_SendMessage (handleSerialInput env (Some ''request=0x08'')) = []"
    and "filter is_RequestFrom (handleSerialInput env (Some ''request=0x08''))
          = [RequestFrom (request_address (trim ''request=0x08'')) 28]"
    and "request_address ''request=0x08'' = 8" and "request_address ''request=8'' = 8"
    by blast+
  then show ?thesis
    using s x v unfolding env_def by (simp add: t)
qed



text \<open>
  C8. For every line with at least 4 and at most 9 fields, parseSerialInput succeeds
  and every omitted trailing field is 0: errorFlags, and each data slot from the number
  of fields minus 3 on. Parsing \<^verbatim>\<open>8,1,1,75.0\<close> gives address 8, typeID 1,
  commandType 1, data0 the host's conversion of \<^verbatim>\<open>75.0\<close>, the other data slots
  0.0 and errorFlags 0.
\<close>

theorem parse_missing_trailing_fields:
  "4 \<le> length (split_commas input) \<Longrightarrow> length (split_commas input) \<le> 9 \<Longrightarrow> wf_message m \<Longrightarrow>
   fst (parseSerialInput tf input ta m)
   \<and> errorFlags (snd (snd (parseSerialInput tf input ta m))) = 0
   \<and> (\<forall>j < 6. length (split_commas input) \<le> j + 3 \<longrightarrow>
        data (snd (snd (parseSerialInput tf input ta m))) ! j = 0)
   \<and> parseSerialInput tf ''8,1,1,75.0'' ta m =
       (True, 8, \<lparr>sliceID = sliceID m, typeID = 1, commandType = 1,
                  data = [tf ''75.0'', 0, 0, 0, 0, 0], errorFlags = 0\<rparr>)"
  by (simp add: parse_success parse_errorFlags parse_data parse_example_defaulting)

theorem parse_missing_trailing_fields_witness:
  "4 \<le> length (split_commas ''8,1,1,75.0'') \<and> length (split_commas ''8,1,1,75.0'') \<le> 9
   \<and> wf_message \<lparr>sliceID = 0, typeID = 7, commandType = 9, data = [1, 2, 3, 4, 5, 6], errorFlags = 3\<rparr>
   \<and> parseSerialInput example_toFloat ''8,1,1,75.0'' 99
         \<lparr>sliceID = 0, typeID = 7, commandType = 9, data = [1, 2, 3, 4, 5, 6], errorFlags = 3\<rparr>
       = (True, 8, \<lparr>sliceID = 0, typeID = 1, commandType = 1,
                    data = [0x42960000, 0, 0, 0, 0, 0], errorFlags = 0\<rparr>)"
proof -
  have h1: "4 \<le> length (split_commas ''8,1,1,75.0'')" by simp
  have h2: "length (split_commas ''8,1,1,75.0'') \<le> 9" by simp
  have h3: "wf_message \<lparr>sliceID = 0, typeID = 7, commandType = 9, data = [1, 2, 3, 4, 5, 6], errorFlags = 3\<rparr>"
    by (simp add: wf_message_def)
  show ?thesis
    using h1 h2 h3 parse_missing_trailing_fields [OF h1 h2 h3, of example_toFloat 99]
    by (simp add: example_toFloat_def)
qed

text \<open>
  C9. For every line with more than 10 comma-delimited fields, parseSerialInput returns
  the same flag, the same address and the same message as for the line cut after its
  tenth field: the prefix of the line whose fields are the first 10 fields.
\<close>

theorem parse_ignores_fields_after_tenth:
  "10 < length (split_commas input) \<Longrightarrow>
   parseSerialInput tf input ta m = parseSerialInput tf (truncate_fields 10 input) ta m
   \<and> split_commas (truncate_fields 10 input) = take 10 (split_commas input)
   \<and> take (length (truncate_fields 10 input)) input = truncate_fields 10 input"
proof -
  assume len: "10 < length (split_commas input)"
  have t: "split_commas (truncate_fields 10 input) = take 10 (split_commas input)"
    by (rule split_truncate_fields) simp
  have "store_fields tf 0 (split_commas input) (ta, init_message m)
      = store_fields tf 0 (take 10 (split_commas input)) (ta, init_message m)"
    by (rule store_fields_take_10)
  then show ?thesis
    using len t by (simp add: parse_refines truncate_fields_prefix)
qed

theorem parse_ignores_fields_after_tenth_witness:
  "10 < length (split_commas ''8,1,1,abc,2.0,3.0,4.0,5.0,6.0,300,7,8'')
   \<and> truncate_fields 10 ''8,1,1,abc,2.0,3.0,4.0,5.0,6.0,300,7,8'' = ''8,1,1,abc,2.0,3.0,4.0,5.0,6.0,300''
   \<and> parseSerialInput (\<lambda>s. 0) ''8,1,1,abc,2.0,3.0,4.0,5.0,6.0,300,7,8'' 0
         \<lparr>sliceID = 0, typeID = 0, commandType = 0, data = [0, 0, 0, 0, 0, 0], errorFlags = 0\<rparr>
     = parseSerialInput (\<lambda>s. 0) ''8,1,1,abc,2.0,3.0,4.0,5.0,6.0,300'' 0
         \<lparr>sliceID = 0, typeID = 0, commandType = 0, data = [0, 0, 0, 0, 0, 0], errorFlags = 0\<rparr>"
proof -
  have h: "10 < length (split_commas ''8,1,1,abc,2.0,3.0,4.0,5.0,6.0,300,7,8'')"
    by simp
  have t: "truncate_fields 10 ''8,1,1,abc,2.0,3.0,4.0,5.0,6.0,300,7,8'' = ''8,1,1,abc,2.0,3.0,4.0,5.0,6.0,300''"
    by simp
  show ?thesis
    using h t parse_ignores_fields_after_tenth [OF h, of "\<lambda>s. 0" 0
      "\<lparr>sliceID = 0, typeID = 0, commandType = 0, data = [0, 0, 0, 0, 0, 0], errorFlags = 0\<rparr>"]
    by simp
qed

text \<open>
  C10. A field is counted for every comma-delimited segment, empty or not: a line
  succeeds exactly when it has at least 3 commas. The line \<^verbatim>\<open>,,,\<close> succeeds with
  address 0, typeID 0, commandType 0, errorFlags 0, data0 the host's conversion of the
  empty text and the other data slots 0.0; \<^verbatim>\<open>sliceID\<close> is not zero but what the
  caller's object held, here 171.
\<close>

theorem parse_empty_fields:
  "fst (parseSerialInput tf input ta m) = (3 \<le> length (filter (\<lambda>c. c = CHR '','') input))
   \<and> parseSerialInput tf '',,,'' ta
         \<lparr>sliceID = 171, typeID = 7, commandType = 9, data = [1, 2, 3, 4, 5, 6], errorFlags = 3\<rparr>
       = (True, 0, \<lparr>sliceID = 171, typeID = 0, commandType = 0,
                    data = [tf [], 0, 0, 0, 0, 0], errorFlags = 0\<rparr>)"
proof -
  have "wf_message \<lparr>sliceID = 171, typeID = 7, commandType = 9, data = [1, 2, 3, 4, 5, 6], errorFlags = 3\<rparr>"
    by (simp add: wf_message_def)
  from parse_example_empty_fields [OF this] show ?thesis
    by (simp add: parse_success length_split_commas)
qed

end
